theory Spec2Isabelle
  imports Main "HOL-Library.Multiset" "HOL-Library.Word"
begin

section \<open>The priority ring buffer of package prb\<close>

text \<open>
  A shallow embedding of the final iteration of the Go package \<^verbatim>\<open>prb\<close>: the generic
  \<^verbatim>\<open>PriorityRingBuffer[T]\<close> with \<^verbatim>\<open>New\<close>, \<^verbatim>\<open>Insert\<close>, \<^verbatim>\<open>bubbleElement\<close>,
  \<^verbatim>\<open>shouldSwap\<close>, \<^verbatim>\<open>Dequeue\<close>, \<^verbatim>\<open>Peek\<close>, \<^verbatim>\<open>PeekMaxPriority\<close>, \<^verbatim>\<open>Search\<close> and
  \<^verbatim>\<open>Len\<close>.

  Every method takes the buffer's lock for its whole body, so each call is one atomic
  step on the buffer: the model is sequential, a method is a function from the buffer
  before the call to the value returned and the buffer after the call.

  Go's \<^verbatim>\<open>int\<close> fields (capacity, cursors, priorities) are modelled as \<open>int\<close>: they are
  only compared, or moved by one and reduced modulo the capacity, so they stay inside
  \<open>[0, capacity]\<close>. The \<^verbatim>\<open>int64\<close> insertion counter is only ever incremented, so it is a
  \<open>64 word\<close> whose \<open>+\<close> wraps around, read as a signed number (\<open>sint\<close>, \<open><s\<close>) where the
  code compares it.
\<close>

subsection \<open>Data\<close>

text \<open>
  The package-level error values. An error built at the place of the return by
  \<^verbatim>\<open>errors.New(msg)\<close> is a value of its own, equal to none of the four package-level
  ones even when its message is the same text: \<open>ErrorsNew msg\<close>.
\<close>

datatype error =
    ErrInvalidCapacity
  | ErrInvalidWindow
  | ErrBufferEmpty
  | ErrBufferFull
  | ErrorsNew string

fun Error :: "error \<Rightarrow> string" where
  "Error ErrInvalidCapacity = ''capacity must be positive''"
| "Error ErrInvalidWindow = ''bubbleWindow must be zero or positive and less than capacity''"
| "Error ErrBufferEmpty = ''buffer is empty''"
| "Error ErrBufferFull = ''buffer is full, refused to overwrite higher priority element''"
| "Error (ErrorsNew msg) = msg"

record 'a Element =
  Value :: 'a
  Priority :: int
  InsertionOrder :: "64 word"

record 'a PriorityRingBuffer =
  elements :: "'a Element list"
  capacity :: int
  head :: int
  tail :: int
  size' :: int
  bubbleWindow :: int
  orderCounter :: "64 word"
  overwriteGuard :: bool

record Config =
  Capacity :: int
  BubbleWindow :: int
  OverwriteGuard :: bool
  ThreadSafe :: bool

text \<open>
  Go's \<^verbatim>\<open>%\<close> truncates towards zero: the remainder has the sign of the dividend.
\<close>

definition go_rem :: "int \<Rightarrow> int \<Rightarrow> int" where
  "go_rem a b = sgn a * (\<bar>a\<bar> mod \<bar>b\<bar>)"

text \<open>
  The zero value of \<^verbatim>\<open>Element[T]\<close>, which \<^verbatim>\<open>make\<close> puts in every slot. The zero value
  of the type parameter \<^verbatim>\<open>T\<close> is a parameter of the model.
\<close>

definition zeroElement :: "'a \<Rightarrow> 'a Element" where
  "zeroElement z = \<lparr>Value = z, Priority = 0, InsertionOrder = 0\<rparr>"

subsection \<open>Construction\<close>

definition New :: "'a \<Rightarrow> Config \<Rightarrow> error + 'a PriorityRingBuffer" where
  "New z config =
     (if Capacity config \<le> 0 then Inl ErrInvalidCapacity
      else if BubbleWindow config < 0 \<or> BubbleWindow config > Capacity config - 1
      then Inl ErrInvalidWindow
      else Inr \<lparr>elements = replicate (nat (Capacity config)) (zeroElement z),
                capacity = Capacity config,
                head = 0, tail = 0, size' = 0,
                bubbleWindow = BubbleWindow config,
                orderCounter = 0,
                overwriteGuard = OverwriteGuard config\<rparr>)"

subsection \<open>Insert and the bounded local reorder\<close>

definition shouldSwap :: "'a Element \<Rightarrow> 'a Element \<Rightarrow> bool" where
  "shouldSwap current previous \<longleftrightarrow>
     Priority current > Priority previous \<or>
     (Priority current = Priority previous \<and>
      InsertionOrder current <s InsertionOrder previous)"

text \<open>
  The loop of \<^verbatim>\<open>bubbleElement\<close>, from the state at the loop head: the buffer, the
  counter \<open>i\<close> and the index \<open>insertIndex\<close>. Each \<^verbatim>\<open>break\<close> returns the buffer as it is.
\<close>

function bubbleLoop :: "'a PriorityRingBuffer \<Rightarrow> int \<Rightarrow> int \<Rightarrow> 'a PriorityRingBuffer" where
  "bubbleLoop b i insertIndex =
     (if i \<le> bubbleWindow b \<and> size' b > 0 then
        (let previousIndex = go_rem (insertIndex - 1 + capacity b) (capacity b) in
         if size' b = capacity b \<and> previousIndex = head b then b
         else
           (let current = elements b ! nat insertIndex;
                previous = elements b ! nat previousIndex in
            if shouldSwap current previous then
              bubbleLoop
                (b\<lparr>elements :=
                     (elements b)[nat insertIndex := previous, nat previousIndex := current]\<rparr>)
                (i + 1) previousIndex
            else b))
      else b)"
  by pat_completeness auto
termination
  by (relation "measure (\<lambda>(b, i, insertIndex). nat (bubbleWindow b + 1 - i))") auto

declare bubbleLoop.simps [simp del]

definition bubbleElement :: "'a PriorityRingBuffer \<Rightarrow> int \<Rightarrow> 'a PriorityRingBuffer" where
  "bubbleElement b insertIndex = bubbleLoop b 1 insertIndex"

text \<open>
  \<^verbatim>\<open>Insert\<close> returns its error (\<open>None\<close> for \<^verbatim>\<open>nil\<close>) and the buffer after the call. The
  counter is incremented before the guard is looked at, so the buffer returned with
  \<open>ErrBufferFull\<close> already has the new counter.
\<close>

definition Insert ::
  "'a \<Rightarrow> int \<Rightarrow> 'a PriorityRingBuffer \<Rightarrow> error option \<times> 'a PriorityRingBuffer" where
  "Insert val priority b =
     (let element = \<lparr>Value = val, Priority = priority, InsertionOrder = orderCounter b\<rparr>;
          b1 = b\<lparr>orderCounter := orderCounter b + 1\<rparr>;
          overwriting = (size' b1 = capacity b1);
          insertIndex = tail b1
      in
        if overwriting \<and> overwriteGuard b1 \<and>
           priority \<le> Priority (elements b1 ! nat (head b1))
        then (Some ErrBufferFull, b1)
        else
          (let b2 = b1\<lparr>elements := (elements b1)[nat insertIndex := element]\<rparr>;
               b3 = bubbleElement b2 insertIndex;
               b4 = b3\<lparr>tail := go_rem (tail b3 + 1) (capacity b3)\<rparr>
           in (None, if overwriting then b4\<lparr>head := tail b4\<rparr>
                     else b4\<lparr>size' := size' b4 + 1\<rparr>)))"

subsection \<open>Dequeue, Peek, PeekMaxPriority\<close>

definition Dequeue ::
  "'a PriorityRingBuffer \<Rightarrow> (error + 'a Element) \<times> 'a PriorityRingBuffer" where
  "Dequeue b =
     (if size' b = 0 then (Inl ErrBufferEmpty, b)
      else
        (let element = elements b ! nat (head b) in
         (Inr element,
          b\<lparr>head := go_rem (head b + 1) (capacity b), size' := size' b - 1\<rparr>)))"

definition Peek ::
  "'a PriorityRingBuffer \<Rightarrow> (error + 'a Element) \<times> 'a PriorityRingBuffer" where
  "Peek b =
     (if size' b = 0 then (Inl ErrBufferEmpty, b)
      else (Inr (elements b ! nat (head b)), b))"

text \<open>The scan of \<^verbatim>\<open>PeekMaxPriority\<close>, from the loop head; it returns \<^verbatim>\<open>maxIndex\<close>.\<close>

function peekMaxLoop :: "'a PriorityRingBuffer \<Rightarrow> int \<Rightarrow> int \<Rightarrow> int" where
  "peekMaxLoop b i maxIndex =
     (if i < size' b then
        (let index = go_rem (head b + i) (capacity b);
             candidate = elements b ! nat index;
             currMax = elements b ! nat maxIndex in
         if Priority candidate > Priority currMax \<or>
            (Priority candidate = Priority currMax \<and>
             InsertionOrder candidate <s InsertionOrder currMax)
         then peekMaxLoop b (i + 1) index
         else peekMaxLoop b (i + 1) maxIndex)
      else maxIndex)"
  by pat_completeness auto
termination
  by (relation "measure (\<lambda>(b, i, maxIndex). nat (size' b - i))") auto

declare peekMaxLoop.simps [simp del]

definition PeekMaxPriority ::
  "'a PriorityRingBuffer \<Rightarrow> (error + 'a Element) \<times> 'a PriorityRingBuffer" where
  "PeekMaxPriority b =
     (if size' b = 0 then (Inl (ErrorsNew ''buffer is empty''), b)
      else (Inr (elements b ! nat (peekMaxLoop b 1 (head b))), b))"

subsection \<open>Search\<close>

type_synonym 'a SearchFilter = "'a Element \<Rightarrow> bool"

text \<open>The inner loop over the filters: \<^verbatim>\<open>match\<close> after it.\<close>

fun matchFilters :: "'a SearchFilter list \<Rightarrow> 'a Element \<Rightarrow> bool" where
  "matchFilters [] element = True"
| "matchFilters (f # filters) element =
     (if \<not> f element then False else matchFilters filters element)"

function searchLoop ::
  "'a PriorityRingBuffer \<Rightarrow> 'a SearchFilter list \<Rightarrow> int \<Rightarrow> int list \<Rightarrow> int list" where
  "searchLoop b filters i result =
     (if i < size' b then
        (let index = go_rem (head b + i) (capacity b);
             element = elements b ! nat index in
         if matchFilters filters element
         then searchLoop b filters (i + 1) (result @ [i])
         else searchLoop b filters (i + 1) result)
      else result)"
  by pat_completeness auto
termination
  by (relation "measure (\<lambda>(b, filters, i, result). nat (size' b - i))") auto

declare searchLoop.simps [simp del]

definition Search ::
  "'a SearchFilter list \<Rightarrow> 'a PriorityRingBuffer \<Rightarrow> int list \<times> 'a PriorityRingBuffer" where
  "Search filters b = (searchLoop b filters 0 [], b)"

definition SearchByValue :: "'a \<Rightarrow> 'a SearchFilter" where
  "SearchByValue val = (\<lambda>e. Value e = val)"

definition SearchByPriority :: "int \<Rightarrow> 'a SearchFilter" where
  "SearchByPriority priority = (\<lambda>e. Priority e = priority)"

definition SearchByMinPriority :: "int \<Rightarrow> 'a SearchFilter" where
  "SearchByMinPriority minPriority = (\<lambda>e. Priority e \<ge> minPriority)"

definition Len :: "'a PriorityRingBuffer \<Rightarrow> int \<times> 'a PriorityRingBuffer" where
  "Len b = (size' b, b)"

section \<open>Well-formed and reachable buffers\<close>

text \<open>
  The fields of a buffer are unexported, so a program only ever holds a buffer that
  \<^verbatim>\<open>New\<close> returned and that went through calls of the methods: \<open>reachable\<close>.
  Such a buffer satisfies \<open>invar\<close>: the slice has \<open>capacity\<close> slots, the cursors are
  indices of it, and \<open>tail\<close> is \<open>size\<close> slots after \<open>head\<close>, modulo the capacity. Under
  \<open>invar\<close> every index the methods use is inside the slice and no remainder is taken by
  zero, so none of Go's run-time panics can occur; the model has no branch for them.
\<close>

definition invar :: "'a PriorityRingBuffer \<Rightarrow> bool" where
  "invar b \<longleftrightarrow>
     0 < capacity b \<and> length (elements b) = nat (capacity b) \<and>
     0 \<le> head b \<and> head b < capacity b \<and>
     0 \<le> size' b \<and> size' b \<le> capacity b \<and>
     tail b = (head b + size' b) mod capacity b \<and>
     0 \<le> bubbleWindow b \<and> bubbleWindow b \<le> capacity b - 1"

inductive reachable :: "'a PriorityRingBuffer \<Rightarrow> bool" where
  reach_New: "New z config = Inr b \<Longrightarrow> reachable b"
| reach_Insert: "reachable b \<Longrightarrow> reachable (snd (Insert val priority b))"
| reach_Dequeue: "reachable b \<Longrightarrow> reachable (snd (Dequeue b))"
| reach_Peek: "reachable b \<Longrightarrow> reachable (snd (Peek b))"
| reach_PeekMaxPriority: "reachable b \<Longrightarrow> reachable (snd (PeekMaxPriority b))"
| reach_Search: "reachable b \<Longrightarrow> reachable (snd (Search filters b))"
| reach_Len: "reachable b \<Longrightarrow> reachable (snd (Len b))"

text \<open>The two invariants on the cursors that the specification names.\<close>

definition cursor_invariants :: "'a PriorityRingBuffer \<Rightarrow> bool" where
  "cursor_invariants b \<longleftrightarrow>
     0 \<le> size' b \<and> size' b \<le> capacity b \<and> (size' b = capacity b \<longrightarrow> head b = tail b)"

section \<open>Logical contents\<close>

text \<open>
  \<open>slot b k\<close> is the element at logical offset \<open>k\<close> from \<open>head\<close>, with the index
  expression that \<^verbatim>\<open>PeekMaxPriority\<close> and \<^verbatim>\<open>Search\<close> use; \<open>live b\<close> lists the
  \<open>size\<close> live slots in that order.
\<close>

definition slot :: "'a PriorityRingBuffer \<Rightarrow> int \<Rightarrow> 'a Element" where
  "slot b k = elements b ! nat (go_rem (head b + k) (capacity b))"

definition live :: "'a PriorityRingBuffer \<Rightarrow> 'a Element list" where
  "live b = map (\<lambda>k. slot b (int k)) [0..<nat (size' b)]"

text \<open>An \<^verbatim>\<open>Insert\<close> is accepted unless the overwrite guard refuses it.\<close>

definition accepted :: "int \<Rightarrow> 'a PriorityRingBuffer \<Rightarrow> bool" where
  "accepted priority b \<longleftrightarrow>
     \<not> (size' b = capacity b \<and> overwriteGuard b \<and>
        priority \<le> Priority (elements b ! nat (head b)))"


text \<open>A sequence of \<^verbatim>\<open>Insert\<close> calls, each given as its value and priority.\<close>

fun insertAll :: "('a \<times> int) list \<Rightarrow> 'a PriorityRingBuffer \<Rightarrow> 'a PriorityRingBuffer" where
  "insertAll [] b = b"
| "insertAll ((val, priority) # calls) b = insertAll calls (snd (Insert val priority b))"

section \<open>Example configurations and buffers\<close>

text \<open>
  Buffers with natural numbers as values (zero value 0), written out field by field;
  each is shown below to be what \<^verbatim>\<open>New\<close> and \<^verbatim>\<open>Insert\<close> produce.
\<close>

text \<open>Capacity 1.\<close>

definition config1 :: Config where
  "config1 = \<lparr>Capacity = 1, BubbleWindow = 0, OverwriteGuard = False, ThreadSafe = False\<rparr>"

definition buffer1 :: "nat PriorityRingBuffer" where
  "buffer1 = \<lparr>elements = [zeroElement 0], capacity = 1, head = 0, tail = 0, size' = 0,
      bubbleWindow = 0, orderCounter = 0, overwriteGuard = False\<rparr>"

text \<open>Capacity 3, no reordering; priorities 5, 15, 10 are inserted.\<close>

definition config30 :: Config where
  "config30 = \<lparr>Capacity = 3, BubbleWindow = 0, OverwriteGuard = False, ThreadSafe = False\<rparr>"

definition buffer30 :: "nat PriorityRingBuffer" where
  "buffer30 = \<lparr>elements = [zeroElement 0, zeroElement 0, zeroElement 0], capacity = 3,
      head = 0, tail = 0, size' = 0, bubbleWindow = 0, orderCounter = 0,
      overwriteGuard = False\<rparr>"

definition buffer30_1 :: "nat PriorityRingBuffer" where
  "buffer30_1 = \<lparr>elements = [\<lparr>Value = 7, Priority = 5, InsertionOrder = 0\<rparr>,
      zeroElement 0, zeroElement 0], capacity = 3,
      head = 0, tail = 1, size' = 1, bubbleWindow = 0, orderCounter = 1,
      overwriteGuard = False\<rparr>"

definition buffer30_2 :: "nat PriorityRingBuffer" where
  "buffer30_2 = \<lparr>elements = [\<lparr>Value = 7, Priority = 5, InsertionOrder = 0\<rparr>,
      \<lparr>Value = 8, Priority = 15, InsertionOrder = 1\<rparr>, zeroElement 0], capacity = 3,
      head = 0, tail = 2, size' = 2, bubbleWindow = 0, orderCounter = 2,
      overwriteGuard = False\<rparr>"

definition buffer30_3 :: "nat PriorityRingBuffer" where
  "buffer30_3 = \<lparr>elements = [\<lparr>Value = 7, Priority = 5, InsertionOrder = 0\<rparr>,
      \<lparr>Value = 8, Priority = 15, InsertionOrder = 1\<rparr>,
      \<lparr>Value = 9, Priority = 10, InsertionOrder = 2\<rparr>], capacity = 3,
      head = 0, tail = 0, size' = 3, bubbleWindow = 0, orderCounter = 3,
      overwriteGuard = False\<rparr>"

text \<open>
  Capacity 2, window 1, overwrite guard on; priorities 5 and 5 fill the buffer, then
  priority 5 is refused (\<open>buffer21_2r\<close>) and priority 6 is accepted, either right away
  (\<open>buffer21_3\<close>) or after the refused call (\<open>buffer21_4\<close>).
\<close>

definition config21 :: Config where
  "config21 = \<lparr>Capacity = 2, BubbleWindow = 1, OverwriteGuard = True, ThreadSafe = False\<rparr>"

definition buffer21 :: "nat PriorityRingBuffer" where
  "buffer21 = \<lparr>elements = [zeroElement 0, zeroElement 0], capacity = 2,
      head = 0, tail = 0, size' = 0, bubbleWindow = 1, orderCounter = 0,
      overwriteGuard = True\<rparr>"

definition buffer21_1 :: "nat PriorityRingBuffer" where
  "buffer21_1 = \<lparr>elements = [\<lparr>Value = 7, Priority = 5, InsertionOrder = 0\<rparr>, zeroElement 0],
      capacity = 2, head = 0, tail = 1, size' = 1, bubbleWindow = 1, orderCounter = 1,
      overwriteGuard = True\<rparr>"

definition buffer21_2 :: "nat PriorityRingBuffer" where
  "buffer21_2 = \<lparr>elements = [\<lparr>Value = 7, Priority = 5, InsertionOrder = 0\<rparr>,
      \<lparr>Value = 8, Priority = 5, InsertionOrder = 1\<rparr>],
      capacity = 2, head = 0, tail = 0, size' = 2, bubbleWindow = 1, orderCounter = 2,
      overwriteGuard = True\<rparr>"

definition buffer21_2r :: "nat PriorityRingBuffer" where
  "buffer21_2r = \<lparr>elements = [\<lparr>Value = 7, Priority = 5, InsertionOrder = 0\<rparr>,
      \<lparr>Value = 8, Priority = 5, InsertionOrder = 1\<rparr>],
      capacity = 2, head = 0, tail = 0, size' = 2, bubbleWindow = 1, orderCounter = 3,
      overwriteGuard = True\<rparr>"

definition buffer21_3 :: "nat PriorityRingBuffer" where
  "buffer21_3 = \<lparr>elements = [\<lparr>Value = 8, Priority = 5, InsertionOrder = 1\<rparr>,
      \<lparr>Value = 10, Priority = 6, InsertionOrder = 2\<rparr>],
      capacity = 2, head = 1, tail = 1, size' = 2, bubbleWindow = 1, orderCounter = 3,
      overwriteGuard = True\<rparr>"

definition buffer21_4 :: "nat PriorityRingBuffer" where
  "buffer21_4 = \<lparr>elements = [\<lparr>Value = 8, Priority = 5, InsertionOrder = 1\<rparr>,
      \<lparr>Value = 10, Priority = 6, InsertionOrder = 3\<rparr>],
      capacity = 2, head = 1, tail = 1, size' = 2, bubbleWindow = 1, orderCounter = 4,
      overwriteGuard = True\<rparr>"

definition calls4 :: "(nat \<times> int) list" where
  "calls4 = [(7, 5), (8, 5), (9, 5), (10, 6)]"

text \<open>Capacity 3, window 2 (the capacity minus one); priorities 1 and 2 are inserted.\<close>

definition config32 :: Config where
  "config32 = \<lparr>Capacity = 3, BubbleWindow = 2, OverwriteGuard = False, ThreadSafe = False\<rparr>"

definition buffer32 :: "nat PriorityRingBuffer" where
  "buffer32 = \<lparr>elements = [zeroElement 0, zeroElement 0, zeroElement 0], capacity = 3,
      head = 0, tail = 0, size' = 0, bubbleWindow = 2, orderCounter = 0,
      overwriteGuard = False\<rparr>"

definition buffer32_1 :: "nat PriorityRingBuffer" where
  "buffer32_1 = \<lparr>elements = [\<lparr>Value = 7, Priority = 1, InsertionOrder = 0\<rparr>,
      zeroElement 0, zeroElement 0], capacity = 3,
      head = 0, tail = 1, size' = 1, bubbleWindow = 2, orderCounter = 1,
      overwriteGuard = False\<rparr>"

definition buffer32_2 :: "nat PriorityRingBuffer" where
  "buffer32_2 = \<lparr>elements = [zeroElement 0,
      \<lparr>Value = 7, Priority = 1, InsertionOrder = 0\<rparr>,
      \<lparr>Value = 8, Priority = 2, InsertionOrder = 1\<rparr>], capacity = 3,
      head = 0, tail = 2, size' = 2, bubbleWindow = 2, orderCounter = 2,
      overwriteGuard = False\<rparr>"

text \<open>Two configurations that \<^verbatim>\<open>New\<close> rejects.\<close>

definition config_zero_capacity :: Config where
  "config_zero_capacity =
     \<lparr>Capacity = 0, BubbleWindow = 0, OverwriteGuard = False, ThreadSafe = False\<rparr>"

definition config_window_is_capacity :: Config where
  "config_window_is_capacity =
     \<lparr>Capacity = 3, BubbleWindow = 3, OverwriteGuard = False, ThreadSafe = False\<rparr>"

section \<open>Basic facts\<close>

subsection \<open>Remainders and the bubble loop\<close>

lemma go_rem_nonneg: "0 \<le> a \<Longrightarrow> 0 < b \<Longrightarrow> go_rem a b = a mod b"
  by (cases "a = 0") (simp_all add: go_rem_def)

lemma prev_in_range:
  "0 < c \<Longrightarrow> 0 \<le> k \<Longrightarrow> k < c \<Longrightarrow> 0 \<le> go_rem (k - 1 + c) c \<and> go_rem (k - 1 + c) c < c"
  by (simp add: go_rem_nonneg)

lemma mod_step: "((h + 1) mod c + (s - 1)) mod c = (h + s) mod (c::int)"
proof -
  have "((h + 1) mod c + (s - 1)) mod c = ((h + 1) + (s - 1)) mod c"
    by (rule mod_add_left_eq)
  then show ?thesis by simp
qed

lemma bubbleLoop_fields:
  "capacity (bubbleLoop b i k) = capacity b \<and> head (bubbleLoop b i k) = head b \<and>
   tail (bubbleLoop b i k) = tail b \<and> size' (bubbleLoop b i k) = size' b \<and>
   bubbleWindow (bubbleLoop b i k) = bubbleWindow b \<and>
   orderCounter (bubbleLoop b i k) = orderCounter b \<and>
   overwriteGuard (bubbleLoop b i k) = overwriteGuard b \<and>
   length (elements (bubbleLoop b i k)) = length (elements b)"
proof (induction b i k rule: bubbleLoop.induct)
  case (1 b i k)
  show ?case
    by (subst (1 2 3 4 5 6 7 8) bubbleLoop.simps) (use 1 in \<open>simp add: Let_def\<close>)
qed

lemma bubbleElement_fields:
  "capacity (bubbleElement b k) = capacity b" "head (bubbleElement b k) = head b"
  "tail (bubbleElement b k) = tail b" "size' (bubbleElement b k) = size' b"
  "bubbleWindow (bubbleElement b k) = bubbleWindow b"
  "orderCounter (bubbleElement b k) = orderCounter b"
  "overwriteGuard (bubbleElement b k) = overwriteGuard b"
  "length (elements (bubbleElement b k)) = length (elements b)"
  using bubbleLoop_fields [of b 1 k] by (simp_all add: bubbleElement_def)

lemma bubbleLoop_empty: "size' b = 0 \<Longrightarrow> bubbleLoop b i k = b"
  by (subst bubbleLoop.simps) simp

lemma bubbleLoop_mset:
  "0 < capacity b \<Longrightarrow> length (elements b) = nat (capacity b) \<Longrightarrow> 0 \<le> k \<Longrightarrow> k < capacity b \<Longrightarrow>
   mset (elements (bubbleLoop b i k)) = mset (elements b)"
proof (induction b i k rule: bubbleLoop.induct)
  case (1 b i k)
  let ?p = "go_rem (k - 1 + capacity b) (capacity b)"
  have p: "0 \<le> ?p" "?p < capacity b"
    using prev_in_range [of "capacity b" k] 1(2,4,5) by simp_all
  have sw: "mset ((elements b)[nat k := elements b ! nat ?p, nat ?p := elements b ! nat k]) = mset (elements b)"
    using mset_swap [of "nat ?p" "elements b" "nat k"] p 1(3,4,5) by simp
  show ?case
    by (subst bubbleLoop.simps) (use 1 p sw in \<open>simp add: Let_def\<close>)
qed

subsection \<open>The invariant\<close>

lemma invar_New: "New z config = Inr b \<Longrightarrow> invar b"
  by (auto simp: New_def invar_def split: if_splits)

lemma invar_full: "invar b \<Longrightarrow> size' b = capacity b \<Longrightarrow> tail b = head b"
  by (simp add: invar_def)

lemma invar_empty: "invar b \<Longrightarrow> size' b = 0 \<Longrightarrow> tail b = head b"
  by (simp add: invar_def)

lemma invar_Insert: "invar b \<Longrightarrow> invar (snd (Insert val priority b))"
  apply (simp add: Insert_def Let_def bubbleElement_fields invar_def go_rem_nonneg)
  apply (auto simp: mod_simps algebra_simps)
  done

lemma invar_Dequeue: "invar b \<Longrightarrow> invar (snd (Dequeue b))"
  by (simp add: Dequeue_def Let_def invar_def go_rem_nonneg mod_step)

lemma readers_same_buffer:
  "snd (Peek b) = b" "snd (PeekMaxPriority b) = b" "snd (Search filters b) = b" "snd (Len b) = b"
  by (simp_all add: Peek_def PeekMaxPriority_def Search_def Len_def)

lemma reachable_invar: "reachable b \<Longrightarrow> invar b"
  by (induction rule: reachable.induct)
     (simp_all add: invar_New invar_Insert invar_Dequeue readers_same_buffer)

lemma invar_cursor_invariants: "invar b \<Longrightarrow> cursor_invariants b"
  by (simp add: invar_def cursor_invariants_def)

lemma cursors_in_range:
  "invar b \<Longrightarrow>
     capacity b \<noteq> 0 \<and> nat (head b) < length (elements b) \<and>
     nat (tail b) < length (elements b)"
  by (simp add: invar_def)



subsection \<open>Insert\<close>

lemma fst_Insert: "fst (Insert val priority b) = (if accepted priority b then None else Some ErrBufferFull)"
  by (simp add: Insert_def Let_def accepted_def)

lemma Insert_rejected:
  "\<not> accepted priority b \<Longrightarrow>
   Insert val priority b = (Some ErrBufferFull, b\<lparr>orderCounter := orderCounter b + 1\<rparr>)"
  by (simp add: Insert_def Let_def accepted_def)

lemma orderCounter_Insert: "orderCounter (snd (Insert val priority b)) = orderCounter b + 1"
  by (simp add: Insert_def Let_def bubbleElement_fields)

lemma size_Insert:
  "accepted priority b \<Longrightarrow>
   size' (snd (Insert val priority b)) = (if size' b = capacity b then size' b else size' b + 1)"
  by (auto simp: Insert_def Let_def bubbleElement_fields accepted_def)

lemma head_Insert:
  "accepted priority b \<Longrightarrow>
   head (snd (Insert val priority b)) =
     (if size' b = capacity b then go_rem (tail b + 1) (capacity b) else head b)"
  by (auto simp: Insert_def Let_def bubbleElement_fields accepted_def)

lemma mset_elements_Insert:
  assumes "invar b" and "accepted priority b"
  shows "mset (elements (snd (Insert val priority b))) =
     add_mset \<lparr>Value = val, Priority = priority, InsertionOrder = orderCounter b\<rparr>
       (mset (elements b) - {#elements b ! nat (tail b)#})"
proof -
  let ?new = "\<lparr>Value = val, Priority = priority, InsertionOrder = orderCounter b\<rparr>"
  let ?b2 = "b\<lparr>orderCounter := orderCounter b + 1,
               elements := (elements b)[nat (tail b) := ?new]\<rparr>"
  from assms(1) have c: "0 < capacity b" "length (elements b) = nat (capacity b)"
    "0 \<le> tail b" "tail b < capacity b" by (simp_all add: invar_def)
  have e: "elements (snd (Insert val priority b)) = elements (bubbleLoop ?b2 1 (tail b))"
    using assms(2) by (auto simp: Insert_def Let_def accepted_def bubbleElement_def)
  have "mset (elements (bubbleLoop ?b2 1 (tail b))) = mset (elements ?b2)"
    using c by (intro bubbleLoop_mset) simp_all
  also have "\<dots> = add_mset ?new (mset (elements b) - {#elements b ! nat (tail b)#})"
    using c by (simp add: mset_update)
  finally show ?thesis by (simp only: e)
qed

lemma new_element_stored:
  assumes "reachable b" and "fst (Insert val priority b) = None"
  shows "\<lparr>Value = val, Priority = priority, InsertionOrder = orderCounter b\<rparr>
           \<in> set (elements (snd (Insert val priority b)))"
proof -
  from assms(1) have i: "invar b" by (rule reachable_invar)
  from assms(2) have a: "accepted priority b" by (simp add: fst_Insert split: if_splits)
  have "\<lparr>Value = val, Priority = priority, InsertionOrder = orderCounter b\<rparr>
          \<in># mset (elements (snd (Insert val priority b)))"
    by (simp add: mset_elements_Insert [OF i a])
  then show ?thesis by simp
qed

lemma orderCounter_insertAll:
  "orderCounter (insertAll calls b) = orderCounter b + of_nat (length calls)"
proof (induction calls arbitrary: b)
  case Nil
  show ?case by simp
next
  case (Cons c calls)
  obtain val priority where c: "c = (val, priority)" by (cases c)
  show ?case by (simp add: c Cons.IH orderCounter_Insert)
qed

lemma New_orderCounter: "New z config = Inr b \<Longrightarrow> orderCounter b = 0"
  by (auto simp: New_def split: if_splits)

lemma sint_of_nat_64: "n < 2 ^ 63 \<Longrightarrow> sint (of_nat n :: 64 word) = int n"
proof -
  assume "n < 2 ^ 63"
  then have "int n < 2 ^ 63" by (simp add: of_nat_less_iff [of n "2 ^ 63", simplified])
  then show ?thesis
    by (simp add: signed_of_nat signed_take_bit_int_eq_self)
qed

subsection \<open>The live slots of a full buffer\<close>

lemma mset_rotate_eq: "mset (rotate n xs) = mset xs"
proof -
  let ?k = "n mod length xs"
  have "mset (rotate n xs) = mset (drop ?k xs) + mset (take ?k xs)"
    by (simp add: rotate_drop_take)
  also have "\<dots> = mset (take ?k xs @ drop ?k xs)"
    by (simp only: mset_append add.commute)
  finally show ?thesis by (simp only: append_take_drop_id)
qed

lemma live_full:
  assumes "invar b" and "size' b = capacity b"
  shows "live b = rotate (nat (head b)) (elements b)"
proof (rule nth_equalityI)
  from assms show "length (live b) = length (rotate (nat (head b)) (elements b))"
    by (simp add: live_def invar_def)
next
  fix i assume "i < length (live b)"
  with assms have i: "i < nat (capacity b)" by (simp add: live_def)
  from assms have c: "0 < capacity b" "0 \<le> head b" "length (elements b) = nat (capacity b)"
    by (simp_all add: invar_def)
  have "nat ((head b + int i) mod capacity b) = (nat (head b) + i) mod nat (capacity b)"
    using c by (simp add: nat_mod_distrib nat_add_distrib)
  then show "live b ! i = rotate (nat (head b)) (elements b) ! i"
    using i c assms(2) by (simp add: live_def slot_def go_rem_nonneg nth_rotate)
qed

lemma mset_live_full: "invar b \<Longrightarrow> size' b = capacity b \<Longrightarrow> mset (live b) = mset (elements b)"
  by (simp add: live_full mset_rotate_eq)

subsection \<open>The scan for the maximum\<close>









subsection \<open>Search\<close>

lemma matchFilters_all: "matchFilters filters e \<longleftrightarrow> (\<forall>f \<in> set filters. f e)"
  by (induction filters) auto

lemma searchLoop_filter:
  "searchLoop b filters i result =
     result @ filter (\<lambda>k. matchFilters filters (slot b k)) [i..size' b - 1]"
proof (induction b filters i result rule: searchLoop.induct)
  case (1 b filters i result)
  show ?case
  proof (cases "i < size' b")
    case True
    then have u: "[i..size' b - 1] = i # [i + 1..size' b - 1]"
      by (simp add: upto_rec1)
    show ?thesis
      by (subst searchLoop.simps) (use True 1 u in \<open>simp add: Let_def slot_def\<close>)
  next
    case False
    then show ?thesis
      by (subst searchLoop.simps) simp
  qed
qed

lemma Search_filter:
  "Search filters b =
     (filter (\<lambda>k. \<forall>f \<in> set filters. f (slot b k)) [0..size' b - 1], b)"
  unfolding Search_def searchLoop_filter matchFilters_all by simp

lemma Search_no_filters: "Search [] b = ([0..size' b - 1], b)"
  unfolding Search_filter by simp

subsection \<open>The example buffers\<close>

lemma New_config1: "New 0 config1 = Inr buffer1"
  by (simp add: New_def config1_def buffer1_def)

lemma New_config30: "New 0 config30 = Inr buffer30"
  by (simp add: New_def config30_def buffer30_def numeral_3_eq_3)

lemma buffer30_steps:
  "Insert 7 5 buffer30 = (None, buffer30_1)"
  "Insert 8 15 buffer30_1 = (None, buffer30_2)"
  "Insert 9 10 buffer30_2 = (None, buffer30_3)"
  by code_simp+

lemma buffer30_3_slots:
  "[0..size' buffer30_3 - 1] = [0, 1, 2]"
  "slot buffer30_3 0 = \<lparr>Value = 7, Priority = 5, InsertionOrder = 0\<rparr>"
  "slot buffer30_3 1 = \<lparr>Value = 8, Priority = 15, InsertionOrder = 1\<rparr>"
  "slot buffer30_3 2 = \<lparr>Value = 9, Priority = 10, InsertionOrder = 2\<rparr>"
  by code_simp+

lemma reachable_buffer30_3: "reachable buffer30_3"
  using reach_Insert [OF reach_Insert [OF reach_Insert [OF reach_New [OF New_config30], of 7 5], of 8 15], of 9 10]
  by (simp add: buffer30_steps)

lemma New_config21: "New 0 config21 = Inr buffer21"
  by (simp add: New_def config21_def buffer21_def numeral_2_eq_2)

lemma buffer21_steps:
  "Insert 7 5 buffer21 = (None, buffer21_1)"
  "Insert 8 5 buffer21_1 = (None, buffer21_2)"
  "Insert 9 5 buffer21_2 = (Some ErrBufferFull, buffer21_2r)"
  "Insert 10 6 buffer21_2 = (None, buffer21_3)"
  "Insert 10 6 buffer21_2r = (None, buffer21_4)"
  by code_simp+

lemma reachable_buffer21_2: "reachable buffer21_2"
  using reach_Insert [OF reach_Insert [OF reach_New [OF New_config21], of 7 5], of 8 5]
  by (simp add: buffer21_steps)

lemma reachable_buffer21_2r: "reachable buffer21_2r"
  using reach_Insert [OF reachable_buffer21_2, of 9 5] by (simp add: buffer21_steps)

lemma buffer21_2_facts:
  "size' buffer21_2 = capacity buffer21_2" "overwriteGuard buffer21_2"
  "orderCounter buffer21_2 = 2" "head buffer21_2 = 0" "capacity buffer21_2 = 2"
  "elements buffer21_2 ! nat (head buffer21_2) = \<lparr>Value = 7, Priority = 5, InsertionOrder = 0\<rparr>"
  "buffer21_2\<lparr>orderCounter := orderCounter buffer21_2 + 1\<rparr> = buffer21_2r"
  by (simp_all add: buffer21_2_def buffer21_2r_def)

lemma buffer21_lives:
  "live buffer21_2 = [\<lparr>Value = 7, Priority = 5, InsertionOrder = 0\<rparr>,
                     \<lparr>Value = 8, Priority = 5, InsertionOrder = 1\<rparr>]"
  "live buffer21_3 = [\<lparr>Value = 10, Priority = 6, InsertionOrder = 2\<rparr>,
                     \<lparr>Value = 8, Priority = 5, InsertionOrder = 1\<rparr>]"
  by code_simp+

lemma buffer21_4_live:
  "live buffer21_4 = [\<lparr>Value = 10, Priority = 6, InsertionOrder = 3\<rparr>,
                     \<lparr>Value = 8, Priority = 5, InsertionOrder = 1\<rparr>]"
  by code_simp

lemma insertAll_calls4:
  "insertAll calls4 buffer21 = buffer21_4"
  "insertAll (take 2 calls4) buffer21 = buffer21_2"
  "insertAll (take 3 calls4) buffer21 = buffer21_2r"
  by (simp_all add: calls4_def buffer21_steps)

lemma New_config32: "New 0 config32 = Inr buffer32"
  by (simp add: New_def config32_def buffer32_def numeral_3_eq_3)

lemma buffer32_steps:
  "Insert 7 1 buffer32 = (None, buffer32_1)"
  "Insert 8 2 buffer32_1 = (None, buffer32_2)"
  by code_simp+

lemma buffer32_lives:
  "live buffer32_1 = [\<lparr>Value = 7, Priority = 1, InsertionOrder = 0\<rparr>]"
  "live buffer32_2 = [zeroElement 0, \<lparr>Value = 7, Priority = 1, InsertionOrder = 0\<rparr>]"
  by code_simp+

lemma reachable_buffer32_1: "reachable buffer32_1"
  using reach_Insert [OF reach_New [OF New_config32], of 7 1]
  by (simp add: buffer32_steps)

section \<open>Properties of the operations\<close>

text \<open>
  C1. With \<^verbatim>\<open>BubbleWindow = capacity - 1\<close> and strictly increasing priorities,
  \<^verbatim>\<open>PeekMaxPriority\<close> after each \<^verbatim>\<open>Insert\<close> is to return the element just inserted.
  The code does not do so at capacity 3 with priorities 1 and 2. \<^verbatim>\<open>bubbleElement\<close>
  stops at \<open>head\<close> only when the buffer is full; here the buffer holds one element, the
  second walks over \<open>head\<close>, is compared with the unused slot before it (priority 0) and
  swapped into that slot, outside the live slots. \<^verbatim>\<open>PeekMaxPriority\<close> then returns the
  first element, of priority 1.
\<close>

theorem C1_peek_max_misses_latest_insert:
  "New 0 config32 = Inr buffer32 \<and>
   capacity buffer32 = 3 \<and> bubbleWindow buffer32 = capacity buffer32 - 1 \<and>
   Insert 7 1 buffer32 = (None, buffer32_1) \<and>
   fst (PeekMaxPriority buffer32_1) = Inr \<lparr>Value = 7, Priority = 1, InsertionOrder = 0\<rparr> \<and>
   Insert 8 2 buffer32_1 = (None, buffer32_2) \<and>
   fst (PeekMaxPriority buffer32_2) = Inr \<lparr>Value = 7, Priority = 1, InsertionOrder = 0\<rparr> \<and>
   fst (PeekMaxPriority buffer32_2) \<noteq> Inr \<lparr>Value = 8, Priority = 2, InsertionOrder = 1\<rparr>"
proof -
  have p1: "fst (PeekMaxPriority buffer32_1) = Inr \<lparr>Value = 7, Priority = 1, InsertionOrder = 0\<rparr>"
    by code_simp
  have p2: "fst (PeekMaxPriority buffer32_2) = Inr \<lparr>Value = 7, Priority = 1, InsertionOrder = 0\<rparr>"
    by code_simp
  have c: "capacity buffer32 = 3" "bubbleWindow buffer32 = capacity buffer32 - 1"
    by (simp_all add: buffer32_def)
  show ?thesis
    by (simp add: New_config32 buffer32_steps p1 p2 c)
qed

text \<open>
  C2. An accepted \<^verbatim>\<open>Insert\<close> into a buffer with \<open>0 < size < capacity\<close> is to leave in
  the \<open>size + 1\<close> live slots the elements that were live before and the new element.
  The code does not: in the run above the second \<^verbatim>\<open>Insert\<close> succeeds, and the live
  slots afterwards hold a zero-valued element and the first element; the new element is
  not among them.
\<close>

theorem C2_inserted_element_leaves_live_slots:
  "reachable buffer32_1 \<and> 0 < size' buffer32_1 \<and> size' buffer32_1 < capacity buffer32_1 \<and>
   fst (Insert 8 2 buffer32_1) = None \<and>
   live buffer32_1 = [\<lparr>Value = 7, Priority = 1, InsertionOrder = 0\<rparr>] \<and>
   live (snd (Insert 8 2 buffer32_1)) =
     [zeroElement 0, \<lparr>Value = 7, Priority = 1, InsertionOrder = 0\<rparr>] \<and>
   \<lparr>Value = 8, Priority = 2, InsertionOrder = orderCounter buffer32_1\<rparr>
     \<notin> set (live (snd (Insert 8 2 buffer32_1))) \<and>
   mset (live (snd (Insert 8 2 buffer32_1))) \<noteq>
     add_mset \<lparr>Value = 8, Priority = 2, InsertionOrder = orderCounter buffer32_1\<rparr>
       (mset (live buffer32_1))"
proof -
  have s: "0 < size' buffer32_1" "size' buffer32_1 < capacity buffer32_1"
    "orderCounter buffer32_1 = 1"
    by (simp_all add: buffer32_1_def)
  have n: "\<lparr>Value = 8, Priority = 2, InsertionOrder = 1\<rparr>
     \<notin> set (live (snd (Insert 8 2 buffer32_1)))"
    by (simp add: buffer32_steps buffer32_lives zeroElement_def)
  have "\<lparr>Value = 8, Priority = 2, InsertionOrder = 1\<rparr>
     \<notin># mset (live (snd (Insert 8 2 buffer32_1)))"
    using n by simp
  then have m: "mset (live (snd (Insert 8 2 buffer32_1))) \<noteq>
     add_mset \<lparr>Value = 8, Priority = 2, InsertionOrder = 1\<rparr> (mset (live buffer32_1))"
    by (metis union_single_eq_member)
  show ?thesis
    using n m by (simp add: reachable_buffer32_1 s buffer32_steps buffer32_lives)
qed

text \<open>
  C3. On a full buffer with the overwrite guard on, an \<^verbatim>\<open>Insert\<close> whose priority is at
  most the priority of the element at \<open>head\<close> returns \<open>ErrBufferFull\<close> and changes nothing
  but the insertion counter. With a strictly greater priority it succeeds, the buffer
  stays full, \<open>head\<close> moves on by one slot, and the live elements afterwards are those
  before with the old element at \<open>head\<close> taken out and the new element put in.
\<close>

theorem C3_overwrite_guard:
  "reachable b \<Longrightarrow> size' b = capacity b \<Longrightarrow> overwriteGuard b \<Longrightarrow>
   (priority \<le> Priority (elements b ! nat (head b)) \<longrightarrow>
      Insert val priority b = (Some ErrBufferFull, b\<lparr>orderCounter := orderCounter b + 1\<rparr>)) \<and>
   (Priority (elements b ! nat (head b)) < priority \<longrightarrow>
      fst (Insert val priority b) = None \<and>
      size' (snd (Insert val priority b)) = capacity b \<and>
      head (snd (Insert val priority b)) = (head b + 1) mod capacity b \<and>
      add_mset (elements b ! nat (head b)) (mset (live (snd (Insert val priority b)))) =
        add_mset \<lparr>Value = val, Priority = priority, InsertionOrder = orderCounter b\<rparr>
          (mset (live b)))"
proof -
  assume r: "reachable b" and f: "size' b = capacity b" and g: "overwriteGuard b"
  from r have i: "invar b" by (rule reachable_invar)
  from i f have t: "tail b = head b" by (rule invar_full)
  let ?old = "elements b ! nat (head b)"
  let ?new = "\<lparr>Value = val, Priority = priority, InsertionOrder = orderCounter b\<rparr>"
  let ?b' = "snd (Insert val priority b)"
  have rej: "Insert val priority b = (Some ErrBufferFull, b\<lparr>orderCounter := orderCounter b + 1\<rparr>)"
    if "priority \<le> Priority ?old"
    using that f g by (intro Insert_rejected) (simp add: accepted_def)
  have acc: "fst (Insert val priority b) = None \<and> size' ?b' = capacity b \<and>
      head ?b' = (head b + 1) mod capacity b \<and>
      add_mset ?old (mset (live ?b')) = add_mset ?new (mset (live b))"
    if "Priority ?old < priority"
  proof -
    from that have a: "accepted priority b" by (simp add: accepted_def)
    from i have c: "0 < capacity b" "0 \<le> head b" "head b < capacity b"
      "length (elements b) = nat (capacity b)" by (simp_all add: invar_def)
    have i': "invar ?b'" using i by (rule invar_Insert)
    have s': "size' ?b' = capacity b" using a f by (simp add: size_Insert)
    have c': "capacity ?b' = capacity b"
      by (simp add: Insert_def Let_def bubbleElement_fields)
    have h': "head ?b' = (head b + 1) mod capacity b"
      using a f t c by (simp add: head_Insert go_rem_nonneg)
    have "mset (live ?b') = mset (elements ?b')"
      using i' s' c' by (intro mset_live_full) simp_all
    also have "\<dots> = add_mset ?new (mset (elements b) - {#?old#})"
      using mset_elements_Insert [OF i a, of val] by (simp add: t)
    finally have m: "mset (live ?b') = add_mset ?new (mset (elements b) - {#?old#})" .
    have "?old \<in># mset (elements b)" using c by simp
    then have "add_mset ?old (mset (live ?b')) = add_mset ?new (mset (elements b))"
      by (simp add: m)
    then show ?thesis
      using a s' h' by (simp add: fst_Insert mset_live_full [OF i f])
  qed
  from rej acc show ?thesis by blast
qed

text \<open>
  The instance of the specification: capacity 2, filled with priorities 5 and 5. Priority
  5 is refused, priority 6 is accepted and evicts the element that was at \<open>head\<close>.
\<close>

theorem C3_overwrite_guard_witness:
  "reachable buffer21_2 \<and> size' buffer21_2 = capacity buffer21_2 \<and> overwriteGuard buffer21_2 \<and>
   map Priority (live buffer21_2) = [5, 5] \<and>
   elements buffer21_2 ! nat (head buffer21_2) = \<lparr>Value = 7, Priority = 5, InsertionOrder = 0\<rparr> \<and>
   Insert 9 5 buffer21_2 =
     (Some ErrBufferFull, buffer21_2\<lparr>orderCounter := orderCounter buffer21_2 + 1\<rparr>) \<and>
   fst (Insert 10 6 buffer21_2) = None \<and>
   add_mset (elements buffer21_2 ! nat (head buffer21_2))
      (mset (live (snd (Insert 10 6 buffer21_2)))) =
     add_mset \<lparr>Value = 10, Priority = 6, InsertionOrder = orderCounter buffer21_2\<rparr>
      (mset (live buffer21_2)) \<and>
   live (snd (Insert 10 6 buffer21_2)) =
     [\<lparr>Value = 10, Priority = 6, InsertionOrder = 2\<rparr>,
      \<lparr>Value = 8, Priority = 5, InsertionOrder = 1\<rparr>]"
proof -
  note h = reachable_buffer21_2 buffer21_2_facts(1) buffer21_2_facts(2)
  have hd: "Priority (elements buffer21_2 ! nat (head buffer21_2)) = 5"
    by (simp only: buffer21_2_facts(6)) simp
  have rejected: "Insert 9 5 buffer21_2 =
      (Some ErrBufferFull, buffer21_2\<lparr>orderCounter := orderCounter buffer21_2 + 1\<rparr>)"
    using C3_overwrite_guard [OF h, of 5 9] hd by simp
  have evicting: "fst (Insert 10 6 buffer21_2) = None \<and>
      add_mset (elements buffer21_2 ! nat (head buffer21_2))
        (mset (live (snd (Insert 10 6 buffer21_2)))) =
      add_mset \<lparr>Value = 10, Priority = 6, InsertionOrder = orderCounter buffer21_2\<rparr>
        (mset (live buffer21_2))"
    using C3_overwrite_guard [OF h, of 6 10] hd by simp
  have l: "live (snd (Insert 10 6 buffer21_2)) =
     [\<lparr>Value = 10, Priority = 6, InsertionOrder = 2\<rparr>,
      \<lparr>Value = 8, Priority = 5, InsertionOrder = 1\<rparr>]"
    by (simp add: buffer21_steps buffer21_lives)
  have p: "map Priority (live buffer21_2) = [5, 5]"
    by (simp add: buffer21_lives)
  from h rejected evicting l p buffer21_2_facts(6) show ?thesis
    by blast
qed

text \<open>
  C4. In every buffer reachable from a freshly constructed one, \<open>0 \<le> size \<le> capacity\<close>,
  and \<open>head = tail\<close> whenever \<open>size = capacity\<close>; and the buffer after any of
  \<^verbatim>\<open>Insert\<close>, \<^verbatim>\<open>Dequeue\<close>, \<^verbatim>\<open>Peek\<close>, \<^verbatim>\<open>PeekMaxPriority\<close>, \<^verbatim>\<open>Search\<close> and
  \<^verbatim>\<open>Len\<close> satisfies them again.
\<close>

theorem C4_cursor_invariants:
  "reachable b \<Longrightarrow>
     cursor_invariants b \<and>
     cursor_invariants (snd (Insert val priority b)) \<and>
     cursor_invariants (snd (Dequeue b)) \<and>
     cursor_invariants (snd (Peek b)) \<and>
     cursor_invariants (snd (PeekMaxPriority b)) \<and>
     cursor_invariants (snd (Search filters b)) \<and>
     cursor_invariants (snd (Len b))"
  by (simp add: readers_same_buffer invar_cursor_invariants reachable_invar
        invar_Insert invar_Dequeue)

text \<open>A full buffer of capacity 1, where the implication on \<open>head\<close> and \<open>tail\<close> applies.\<close>

theorem C4_cursor_invariants_witness:
  "reachable (snd (Insert 7 1 buffer1)) \<and>
   size' (snd (Insert 7 1 buffer1)) = capacity (snd (Insert 7 1 buffer1)) \<and>
   cursor_invariants (snd (Insert 7 1 buffer1)) \<and>
   cursor_invariants (snd (Insert 8 2 (snd (Insert 7 1 buffer1)))) \<and>
   cursor_invariants (snd (Dequeue (snd (Insert 7 1 buffer1))))"
proof -
  have r: "reachable (snd (Insert 7 1 buffer1))"
    by (rule reach_Insert, rule reach_New, rule New_config1)
  have s: "size' (snd (Insert 7 1 buffer1)) = capacity (snd (Insert 7 1 buffer1))"
    by code_simp
  show ?thesis using r s C4_cursor_invariants [OF r, of 8 2 "[]"] by simp
qed

text \<open>
  C5. On a buffer with \<open>size = 0\<close>, \<^verbatim>\<open>Dequeue\<close>, \<^verbatim>\<open>Peek\<close> and
  \<^verbatim>\<open>PeekMaxPriority\<close> are each to fail with the \<^verbatim>\<open>BufferEmpty\<close> error and leave the
  buffer unchanged. All three leave the buffer unchanged, and \<^verbatim>\<open>Dequeue\<close> and
  \<^verbatim>\<open>Peek\<close> return \<open>ErrBufferEmpty\<close>. \<^verbatim>\<open>PeekMaxPriority\<close> returns another error
  value, built on the spot by \<^verbatim>\<open>errors.New\<close> with the same message; it is not
  \<open>ErrBufferEmpty\<close>.
\<close>

theorem C5_peek_max_empty_error_differs:
  "New 0 config1 = Inr buffer1 \<and> size' buffer1 = 0 \<and>
   Dequeue buffer1 = (Inl ErrBufferEmpty, buffer1) \<and>
   Peek buffer1 = (Inl ErrBufferEmpty, buffer1) \<and>
   PeekMaxPriority buffer1 = (Inl (ErrorsNew ''buffer is empty''), buffer1) \<and>
   fst (PeekMaxPriority buffer1) \<noteq> Inl ErrBufferEmpty \<and>
   Error (ErrorsNew ''buffer is empty'') = Error ErrBufferEmpty"
proof -
  have s: "size' buffer1 = 0" by (simp add: buffer1_def)
  show ?thesis
    by (simp add: New_config1 s Dequeue_def Peek_def PeekMaxPriority_def)
qed

text \<open>
  C6. Every \<^verbatim>\<open>Insert\<close> adds exactly one to the insertion counter, also when the
  overwrite guard refuses it, in which case nothing else changes. An accepted
  \<^verbatim>\<open>Insert\<close> stores an element that carries the counter's value from before the call.
  After \<open>n\<close> calls on a fresh buffer the counter is \<open>n\<close> (as a 64-bit word; read as
  a signed number it is \<open>n\<close> as long as \<open>n < 2^63\<close>), so the values given out by a
  sequence of fewer than \<open>2^63\<close> calls increase strictly. A refused call exists, and it
  consumes a counter value that no stored element carries.
\<close>

theorem C6_insertion_counter:
  "orderCounter (snd (Insert val priority b)) = orderCounter b + 1 \<and>
   (fst (Insert val priority b) \<noteq> None \<longrightarrow>
      Insert val priority b = (Some ErrBufferFull, b\<lparr>orderCounter := orderCounter b + 1\<rparr>)) \<and>
   (reachable b \<and> fst (Insert val priority b) = None \<longrightarrow>
      \<lparr>Value = val, Priority = priority, InsertionOrder = orderCounter b\<rparr>
        \<in> set (elements (snd (Insert val priority b)))) \<and>
   (New z config = Inr b0 \<longrightarrow>
      orderCounter (insertAll calls b0) = of_nat (length calls) \<and>
      (length calls < 2 ^ 63 \<longrightarrow>
         sint (orderCounter (insertAll calls b0)) = int (length calls)) \<and>
      (\<forall>i j. i < j \<and> j \<le> length calls \<and> length calls < 2 ^ 63 \<longrightarrow>
         orderCounter (insertAll (take i calls) b0) <s
         orderCounter (insertAll (take j calls) b0))) \<and>
   (\<exists>b' :: nat PriorityRingBuffer. reachable b' \<and>
      fst (Insert 9 5 b') = Some ErrBufferFull \<and>
      orderCounter (snd (Insert 9 5 b')) = orderCounter b' + 1)"
proof -
  have rejected: "Insert val priority b =
      (Some ErrBufferFull, b\<lparr>orderCounter := orderCounter b + 1\<rparr>)"
    if "fst (Insert val priority b) \<noteq> None"
    using that by (intro Insert_rejected) (simp add: fst_Insert split: if_splits)
  have fresh: "orderCounter (insertAll calls b0) = of_nat (length calls) \<and>
      (length calls < 2 ^ 63 \<longrightarrow>
         sint (orderCounter (insertAll calls b0)) = int (length calls)) \<and>
      (\<forall>i j. i < j \<and> j \<le> length calls \<and> length calls < 2 ^ 63 \<longrightarrow>
         orderCounter (insertAll (take i calls) b0) <s
         orderCounter (insertAll (take j calls) b0))"
    if n: "New z config = Inr b0"
  proof -
    have c: "orderCounter (insertAll cs b0) = of_nat (length cs)" for cs
      by (simp add: orderCounter_insertAll New_orderCounter [OF n])
    have "orderCounter (insertAll (take i calls) b0) <s
          orderCounter (insertAll (take j calls) b0)"
      if "i < j" "j \<le> length calls" "length calls < 2 ^ 63" for i j
    proof -
      from that have "i < 2 ^ 63" "j < 2 ^ 63" by simp_all
      then have "sint (of_nat i :: 64 word) < sint (of_nat j :: 64 word)"
        using that(1) by (simp add: sint_of_nat_64)
      with that show ?thesis by (simp add: c word_sless_alt min_def)
    qed
    then show ?thesis by (simp add: c sint_of_nat_64)
  qed
  have "fst (Insert 9 5 buffer21_2) = Some ErrBufferFull"
    by (simp add: buffer21_steps)
  with reachable_buffer21_2 orderCounter_Insert [of 9 5 buffer21_2]
  have "reachable buffer21_2 \<and> fst (Insert 9 5 buffer21_2) = Some ErrBufferFull \<and>
        orderCounter (snd (Insert 9 5 buffer21_2)) = orderCounter buffer21_2 + 1"
    by blast
  then have ex: "\<exists>b' :: nat PriorityRingBuffer. reachable b' \<and>
      fst (Insert 9 5 b') = Some ErrBufferFull \<and>
      orderCounter (snd (Insert 9 5 b')) = orderCounter b' + 1"
    by (rule exI)
  have stored: "\<lparr>Value = val, Priority = priority, InsertionOrder = orderCounter b\<rparr>
        \<in> set (elements (snd (Insert val priority b)))"
    if "reachable b \<and> fst (Insert val priority b) = None"
    using that by (intro new_element_stored) simp_all
  from orderCounter_Insert [of val priority b] rejected stored fresh ex show ?thesis
    by blast
qed

text \<open>
  Four calls on a buffer of capacity 2 with the guard on: priorities 5, 5, 5 (refused) and
  6. The live elements at the end carry the insertion orders 3 and 1; the value 2 went to
  the refused call.
\<close>

theorem C6_insertion_counter_witness:
  "New 0 config21 = Inr buffer21 \<and> reachable buffer21_2r \<and>
   length calls4 < 2 ^ 63 \<and>
   fst (Insert 9 5 buffer21_2) \<noteq> None \<and>
   Insert 9 5 buffer21_2 =
     (Some ErrBufferFull, buffer21_2\<lparr>orderCounter := orderCounter buffer21_2 + 1\<rparr>) \<and>
   fst (Insert 10 6 buffer21_2r) = None \<and>
   orderCounter (snd (Insert 10 6 buffer21_2r)) = orderCounter buffer21_2r + 1 \<and>
   \<lparr>Value = 10, Priority = 6, InsertionOrder = orderCounter buffer21_2r\<rparr>
     \<in> set (elements (snd (Insert 10 6 buffer21_2r))) \<and>
   orderCounter (insertAll calls4 buffer21) = of_nat (length calls4) \<and>
   sint (orderCounter (insertAll calls4 buffer21)) = int (length calls4) \<and>
   orderCounter (insertAll (take 2 calls4) buffer21) <s
     orderCounter (insertAll (take 3 calls4) buffer21) \<and>
   map InsertionOrder (live (insertAll calls4 buffer21)) = [3, 1]"
proof -
  have l: "length calls4 < 2 ^ 63" "(2::nat) < 3 \<and> 3 \<le> length calls4 \<and> length calls4 < 2 ^ 63"
    by (simp_all add: calls4_def)
  have r: "fst (Insert 9 5 buffer21_2) \<noteq> None" by (simp add: buffer21_steps)
  have a: "fst (Insert 10 6 buffer21_2r) = None" by (simp add: buffer21_steps)
  have o: "map InsertionOrder (live (insertAll calls4 buffer21)) = [3, 1]"
    by (simp add: insertAll_calls4 buffer21_4_live)
  from C6_insertion_counter [of 9 5 buffer21_2 0 config21 buffer21 calls4] r
  have 1: "Insert 9 5 buffer21_2 =
     (Some ErrBufferFull, buffer21_2\<lparr>orderCounter := orderCounter buffer21_2 + 1\<rparr>)"
    by blast
  from C6_insertion_counter [of 10 6 buffer21_2r 0 config21 buffer21 calls4] reachable_buffer21_2r a
  have 2: "orderCounter (snd (Insert 10 6 buffer21_2r)) = orderCounter buffer21_2r + 1"
    and 3: "\<lparr>Value = 10, Priority = 6, InsertionOrder = orderCounter buffer21_2r\<rparr>
     \<in> set (elements (snd (Insert 10 6 buffer21_2r)))"
    by blast+
  from C6_insertion_counter [of 10 6 buffer21_2r 0 config21 buffer21 calls4] New_config21 l
  have 4: "orderCounter (insertAll calls4 buffer21) = of_nat (length calls4)"
    and 5: "sint (orderCounter (insertAll calls4 buffer21)) = int (length calls4)"
    and 6: "orderCounter (insertAll (take 2 calls4) buffer21) <s
       orderCounter (insertAll (take 3 calls4) buffer21)"
    by blast+
  from New_config21 reachable_buffer21_2r l(1) r a o 1 2 3 4 5 6 show ?thesis
    by blast
qed



text \<open>
  C8. \<^verbatim>\<open>Search\<close> returns, in increasing order, exactly the offsets \<open>k\<close> in
  \<open>[0, size)\<close> whose live element \<open>slot b k\<close> satisfies every filter, and returns the
  buffer unchanged; without filters it returns all of \<open>0, \<dots>, size - 1\<close>.
\<close>

theorem C8_search_offsets:
  "Search filters b =
     (filter (\<lambda>k. \<forall>f \<in> set filters. f (slot b k)) [0..size' b - 1], b) \<and>
   Search [] b = ([0..size' b - 1], b)"
  using Search_filter Search_no_filters by blast

text \<open>
  The instance of the specification: live priorities 5, 15, 10 and the filter
  \<^verbatim>\<open>SearchByMinPriority(10)\<close> give the offsets 1 and 2.
\<close>

theorem C8_search_offsets_witness:
  "reachable buffer30_3 \<and>
   map (\<lambda>k. Priority (slot buffer30_3 k)) [0..size' buffer30_3 - 1] = [5, 15, 10] \<and>
   Search [SearchByMinPriority 10] buffer30_3 = ([1, 2], buffer30_3) \<and>
   Search [] buffer30_3 = ([0, 1, 2], buffer30_3)"
  using C8_search_offsets [of "[SearchByMinPriority 10]" buffer30_3] C8_search_offsets [of "[]" buffer30_3]
  by (simp add: buffer30_3_slots SearchByMinPriority_def reachable_buffer30_3)

text \<open>
  C9. \<^verbatim>\<open>New\<close> fails with \<open>ErrInvalidCapacity\<close> exactly when the capacity is not
  positive, fails with \<open>ErrInvalidWindow\<close> exactly when the capacity is positive and the
  bubble window is outside \<open>[0, capacity - 1]\<close>, and otherwise returns a buffer of
  \<open>capacity\<close> zero-valued slots with \<open>head\<close>, \<open>tail\<close>, \<open>size\<close> and the insertion
  counter all 0.
\<close>

theorem C9_construction:
  "(New z config = Inl ErrInvalidCapacity \<longleftrightarrow> Capacity config \<le> 0) \<and>
   (New z config = Inl ErrInvalidWindow \<longleftrightarrow>
      0 < Capacity config \<and>
      (BubbleWindow config < 0 \<or> Capacity config - 1 < BubbleWindow config)) \<and>
   (0 < Capacity config \<and> 0 \<le> BubbleWindow config \<and>
    BubbleWindow config \<le> Capacity config - 1 \<longrightarrow>
      (\<exists>b. New z config = Inr b \<and>
           length (elements b) = nat (Capacity config) \<and>
           (\<forall>e \<in> set (elements b). e = zeroElement z) \<and>
           capacity b = Capacity config \<and>
           head b = 0 \<and> tail b = 0 \<and> size' b = 0 \<and> orderCounter b = 0 \<and>
           bubbleWindow b = BubbleWindow config \<and>
           overwriteGuard b = OverwriteGuard config))"
  by (auto simp: New_def)

text \<open>Capacity 0, a window equal to the capacity, and a valid configuration.\<close>

theorem C9_construction_witness:
  "Capacity config_zero_capacity \<le> 0 \<and>
   New (0::nat) config_zero_capacity = Inl ErrInvalidCapacity \<and>
   BubbleWindow config_window_is_capacity = Capacity config_window_is_capacity \<and>
   New (0::nat) config_window_is_capacity = Inl ErrInvalidWindow \<and>
   0 < Capacity config32 \<and> 0 \<le> BubbleWindow config32 \<and>
   BubbleWindow config32 \<le> Capacity config32 - 1 \<and>
   (\<exists>b. New (0::nat) config32 = Inr b \<and>
        length (elements b) = nat (Capacity config32) \<and>
        (\<forall>e \<in> set (elements b). e = zeroElement 0) \<and>
        capacity b = Capacity config32 \<and>
        head b = 0 \<and> tail b = 0 \<and> size' b = 0 \<and> orderCounter b = 0 \<and>
        bubbleWindow b = BubbleWindow config32 \<and>
        overwriteGuard b = OverwriteGuard config32)"
proof -
  have z: "Capacity config_zero_capacity \<le> 0"
    by (simp add: config_zero_capacity_def)
  have w: "0 < Capacity config_window_is_capacity"
    "BubbleWindow config_window_is_capacity = Capacity config_window_is_capacity"
    by (simp_all add: config_window_is_capacity_def)
  have g: "0 < Capacity config32" "0 \<le> BubbleWindow config32"
    "BubbleWindow config32 \<le> Capacity config32 - 1"
    by (simp_all add: config32_def)
  have w': "Capacity config_window_is_capacity - 1 < BubbleWindow config_window_is_capacity"
    using w by simp
  from C9_construction [of "0::nat" config_zero_capacity] z
  have 1: "New (0::nat) config_zero_capacity = Inl ErrInvalidCapacity" by blast
  from C9_construction [of "0::nat" config_window_is_capacity] w w'
  have 2: "New (0::nat) config_window_is_capacity = Inl ErrInvalidWindow" by blast
  from C9_construction [of "0::nat" config32] g
  have 3: "\<exists>b. New (0::nat) config32 = Inr b \<and>
        length (elements b) = nat (Capacity config32) \<and>
        (\<forall>e \<in> set (elements b). e = zeroElement 0) \<and>
        capacity b = Capacity config32 \<and>
        head b = 0 \<and> tail b = 0 \<and> size' b = 0 \<and> orderCounter b = 0 \<and>
        bubbleWindow b = BubbleWindow config32 \<and>
        overwriteGuard b = OverwriteGuard config32" by blast
  from z w(2) g 1 2 3 show ?thesis by blast
qed

text \<open>
  C10. On a reachable buffer with \<open>size = 0\<close>, an \<^verbatim>\<open>Insert\<close> succeeds and the
  \<^verbatim>\<open>Dequeue\<close> right after it returns the inserted element: the same value, the same
  priority, and the insertion order that the counter held at the \<^verbatim>\<open>Insert\<close>.
\<close>

theorem C10_insert_dequeue_round_trip:
  "reachable b \<Longrightarrow> size' b = 0 \<Longrightarrow>
     fst (Insert val priority b) = None \<and>
     fst (Dequeue (snd (Insert val priority b))) =
       Inr \<lparr>Value = val, Priority = priority, InsertionOrder = orderCounter b\<rparr>"
proof -
  assume r: "reachable b" and e: "size' b = 0"
  from r have i: "invar b" by (rule reachable_invar)
  from i e have t: "tail b = head b" by (rule invar_empty)
  from i have c: "0 < capacity b" "0 \<le> head b" "head b < capacity b"
    "length (elements b) = nat (capacity b)" by (simp_all add: invar_def)
  show ?thesis using e t c
    by (simp add: Insert_def Dequeue_def Let_def bubbleElement_def bubbleLoop_empty)
qed

text \<open>A fresh buffer of capacity 1.\<close>

theorem C10_insert_dequeue_round_trip_witness:
  "reachable buffer1 \<and> size' buffer1 = 0 \<and>
   fst (Insert 7 1 buffer1) = None \<and>
   fst (Dequeue (snd (Insert 7 1 buffer1))) = Inr \<lparr>Value = 7, Priority = 1, InsertionOrder = 0\<rparr>"
proof -
  have r: "reachable buffer1" by (rule reach_New, rule New_config1)
  have e: "size' buffer1 = 0" by (simp add: buffer1_def)
  have o: "orderCounter buffer1 = 0" by (simp add: buffer1_def)
  show ?thesis using r e o C10_insert_dequeue_round_trip [OF r e, of 7 1] by simp
qed

end
